theory Spec2Isabelle
  imports Complex_Main
begin

section \<open>Text classification script: data pipeline\<close>

text \<open>
  A shallow embedding of \<^verbatim>\<open>beginner_source/text_sentiment_ngrams_tutorial.py\<close>.
  Python integers are \<open>int\<close> (labels) or \<open>nat\<close> (vocabulary indices, offsets and
  counts, which are never negative), strings are \<open>string\<close>, a raised exception is the
  \<open>Inl\<close> branch of a sum. A one-dimensional integer tensor is the list of its entries.
\<close>

datatype error = ValueError | RuntimeError | ZeroDivisionError | KeyError | IndexError

subsection \<open>The builtin \<open>int\<close>\<close>

text \<open>
  The dataset yields integer labels, the documentation of the script applies the label
  pipeline to a string; a label is either.
\<close>

datatype pyval = PInt int | PStr string

text \<open>
  \<open>int(s)\<close> on a string of ASCII characters: surrounding whitespace (space, tab, line
  feed, vertical tab, form feed, carriage return) is dropped, one sign is allowed, the
  rest is a non-empty run of decimal digits in which single underscores may separate
  digits. Anything else raises \<open>ValueError\<close>, and so does, in the interpreters that
  limit the conversion (CPython 3.11 and later, by default), a string of more than
  \<open>4300\<close> digits.
\<close>

definition py_isspace :: "char \<Rightarrow> bool" where
  "py_isspace c = (c \<in> set [CHR '' '', CHR 0x09, CHR 0x0A, CHR 0x0B, CHR 0x0C, CHR 0x0D])"

definition max_str_digits :: nat where
  "max_str_digits = 4300"

definition py_strip :: "string \<Rightarrow> string" where
  "py_strip s = rev (dropWhile py_isspace (rev (dropWhile py_isspace s)))"

definition digit_of :: "char \<Rightarrow> nat option" where
  "digit_of c = (let n = (of_char c :: nat) in if 48 \<le> n \<and> n \<le> 57 then Some (n - 48) else None)"

fun py_digits :: "bool \<Rightarrow> nat \<Rightarrow> string \<Rightarrow> nat option" where
  "py_digits after acc [] = (if after then Some acc else None)"
| "py_digits after acc (c # cs) =
     (if c = CHR ''_'' then (if after then py_digits False acc cs else None)
      else (case digit_of c of
              None \<Rightarrow> None
            | Some d \<Rightarrow> py_digits True (10 * acc + d) cs))"

definition py_int_str :: "string \<Rightarrow> error + int" where
  "py_int_str s =
     (case py_strip s of
        [] \<Rightarrow> Inl ValueError
      | c # cs \<Rightarrow>
          (if max_str_digits < length (filter (\<lambda>d. digit_of d \<noteq> None) (c # cs)) then Inl ValueError
           else if c = CHR ''-'' then
             (case py_digits False 0 cs of None \<Rightarrow> Inl ValueError | Some n \<Rightarrow> Inr (- int n))
           else if c = CHR ''+'' then
             (case py_digits False 0 cs of None \<Rightarrow> Inl ValueError | Some n \<Rightarrow> Inr (int n))
           else
             (case py_digits False 0 (c # cs) of None \<Rightarrow> Inl ValueError | Some n \<Rightarrow> Inr (int n))))"

fun py_int :: "pyval \<Rightarrow> error + int" where
  "py_int (PInt n) = Inr n"
| "py_int (PStr s) = py_int_str s"

subsection \<open>Vocabulary\<close>

text \<open>
  Modelled from the spec: the vocabulary object of the text library, which is not part
  of the source. It is a one-to-one mapping from tokens to indices, here the list of
  its tokens, a token's index being its position, with a default index for the tokens it
  does not hold, unset until \<open>set_default_index\<close>.
\<close>

record vocab =
  itos :: "string list"
  default_index :: "nat option"

fun index_of :: "string list \<Rightarrow> string \<Rightarrow> nat option" where
  "index_of [] t = None"
| "index_of (x # xs) t = (if x = t then Some 0 else map_option Suc (index_of xs t))"

text \<open>\<open>vocab[token]\<close>: the token's index, the default index for a token the vocabulary
  does not hold, \<open>RuntimeError\<close> when no default index is set.\<close>

definition vocab_getitem :: "vocab \<Rightarrow> string \<Rightarrow> error + nat" where
  "vocab_getitem v t =
     (case index_of (itos v) t of
        Some i \<Rightarrow> Inr i
      | None \<Rightarrow> (case default_index v of Some d \<Rightarrow> Inr d | None \<Rightarrow> Inl RuntimeError))"

text \<open>\<open>vocab(tokens)\<close>: every token looked up, in order; the first failure is raised.\<close>

fun vocab_call :: "vocab \<Rightarrow> string list \<Rightarrow> error + nat list" where
  "vocab_call v [] = Inr []"
| "vocab_call v (t # ts) =
     (case vocab_getitem v t of
        Inl e \<Rightarrow> Inl e
      | Inr i \<Rightarrow> (case vocab_call v ts of Inl e \<Rightarrow> Inl e | Inr js \<Rightarrow> Inr (i # js)))"

definition set_default_index :: "vocab \<Rightarrow> nat \<Rightarrow> vocab" where
  "set_default_index v d = v\<lparr>default_index := Some d\<rparr>"

text \<open>
  Modelled from the spec: \<open>build_vocab_from_iterator\<close> of the text library, which is
  not part of the source. The special tokens take the indices \<open>0..k-1\<close> in the order
  given, every other distinct token the next free index in the order of its first
  occurrence; no default index is set.
\<close>

fun first_seen :: "string list \<Rightarrow> string list \<Rightarrow> string list" where
  "first_seen seen [] = []"
| "first_seen seen (t # ts) =
     (if t \<in> set seen then first_seen seen ts else t # first_seen (t # seen) ts)"

definition build_vocab_from_iterator :: "string list list \<Rightarrow> string list \<Rightarrow> vocab" where
  "build_vocab_from_iterator token_lists specials =
     \<lparr>itos = specials @ first_seen specials (concat token_lists), default_index = None\<rparr>"

text \<open>\<open>yield_tokens\<close>: the tokens of every text of the dataset, labels dropped. The
  tokenizer of the text library is a parameter \<open>tokenizer\<close> of the model.\<close>

definition yield_tokens :: "(string \<Rightarrow> string list) \<Rightarrow> (pyval \<times> string) list \<Rightarrow> string list list" where
  "yield_tokens tokenizer data_iter = map (\<lambda>(_, text). tokenizer text) data_iter"

text \<open>Lines 68 and 69 of the script: the vocabulary built from the training
  split, with the index of \<open><unk>\<close> as its default index.\<close>

definition script_vocab :: "(string \<Rightarrow> string list) \<Rightarrow> (pyval \<times> string) list \<Rightarrow> error + vocab" where
  "script_vocab tokenizer train_iter =
     (let v = build_vocab_from_iterator (yield_tokens tokenizer train_iter) [''<unk>'']
      in (case vocab_getitem v ''<unk>'' of
            Inl e \<Rightarrow> Inl e
          | Inr d \<Rightarrow> Inr (set_default_index v d)))"

subsection \<open>Text and label pipelines\<close>

definition text_pipeline :: "(string \<Rightarrow> string list) \<Rightarrow> vocab \<Rightarrow> string \<Rightarrow> error + nat list" where
  "text_pipeline tokenizer v x = vocab_call v (tokenizer x)"

definition label_pipeline :: "pyval \<Rightarrow> error + int" where
  "label_pipeline x = (case py_int x of Inl e \<Rightarrow> Inl e | Inr n \<Rightarrow> Inr (n - 1))"

subsection \<open>Batch collation\<close>

text \<open>
  A tensor of type \<open>int64\<close> holds the integers of 64 bits; \<open>torch.tensor\<close> raises
  \<open>RuntimeError\<close> on a Python integer outside this range.
\<close>

definition in_int64 :: "int \<Rightarrow> bool" where
  "in_int64 n = (- (2 ^ 63) \<le> n \<and> n < 2 ^ 63)"

text \<open>
  The loop of \<open>collate_batch\<close> with its three accumulators; each sample appends its
  label, its encoded text, made a tensor of type \<open>int64\<close>, and the length of that text.
\<close>

fun collate_loop ::
  "(string \<Rightarrow> string list) \<Rightarrow> vocab \<Rightarrow> (pyval \<times> string) list \<Rightarrow>
   int list \<times> nat list list \<times> nat list \<Rightarrow> error + (int list \<times> nat list list \<times> nat list)" where
  "collate_loop tokenizer v [] acc = Inr acc"
| "collate_loop tokenizer v ((lbl, txt) # batch) (label_list, text_list, offsets) =
     (case label_pipeline lbl of
        Inl e \<Rightarrow> Inl e
      | Inr l \<Rightarrow>
          (case text_pipeline tokenizer v txt of
             Inl e \<Rightarrow> Inl e
           | Inr processed_text \<Rightarrow>
               (if list_all (\<lambda>i. in_int64 (int i)) processed_text then
                  collate_loop tokenizer v batch
                    (label_list @ [l], text_list @ [processed_text],
                     offsets @ [length processed_text])
                else Inl RuntimeError)))"

text \<open>\<open>cumsum\<close>: the running sums of a list.\<close>

fun cumsum_from :: "nat \<Rightarrow> nat list \<Rightarrow> nat list" where
  "cumsum_from s [] = []"
| "cumsum_from s (x # xs) = (s + x) # cumsum_from (s + x) xs"

definition cumsum :: "nat list \<Rightarrow> nat list" where
  "cumsum xs = cumsum_from 0 xs"

text \<open>\<open>torch.cat\<close> of one-dimensional tensors; it refuses an empty list.\<close>

definition torch_cat :: "nat list list \<Rightarrow> error + nat list" where
  "torch_cat ts = (if ts = [] then Inl RuntimeError else Inr (concat ts))"

record batch =
  b_label :: "int list"
  b_text :: "nat list"
  b_offsets :: "nat list"

definition collate_batch ::
  "(string \<Rightarrow> string list) \<Rightarrow> vocab \<Rightarrow> (pyval \<times> string) list \<Rightarrow> error + batch" where
  "collate_batch tokenizer v b =
     (case collate_loop tokenizer v b ([], [], [0]) of
        Inl e \<Rightarrow> Inl e
      | Inr (label_list, text_list, offs) \<Rightarrow>
          (if list_all in_int64 label_list then
             (case torch_cat text_list of
                Inl e \<Rightarrow> Inl e
              | Inr t \<Rightarrow>
                  Inr \<lparr>b_label = label_list, b_text = t, b_offsets = cumsum (butlast offs)\<rparr>)
           else Inl RuntimeError))"

text \<open>
  Modelled from the spec: the tokenizer of the text library, which is not part of the
  source; the spec says it splits raw text into a sequence of lowercase word tokens.
  Used where a concrete tokenizer is needed; the pipelines take any tokenizer.
\<close>

definition to_lower :: "char \<Rightarrow> char" where
  "to_lower c = (let n = (of_char c :: nat) in if 65 \<le> n \<and> n \<le> 90 then char_of (n + 32) else c)"

fun split_words :: "string \<Rightarrow> string \<Rightarrow> string list" where
  "split_words w [] = (if w = [] then [] else [w])"
| "split_words w (c # cs) =
     (if py_isspace c then (if w = [] then split_words [] cs else w # split_words [] cs)
      else split_words (w @ [c]) cs)"

definition spec_tokenizer :: "string \<Rightarrow> string list" where
  "spec_tokenizer s = split_words [] (map to_lower s)"

section \<open>Model, training and evaluation\<close>

text \<open>
  Floating-point numbers (weights, logits, accuracies, the learning rate) are modelled
  as rationals: the model computes the exact value the script's arithmetic rounds.
\<close>

subsection \<open>Tensors and the model\<close>

text \<open>
  \<open>torch.tensor\<close> of a list with no \<open>dtype\<close>: a non-empty list of integers gives an
  integer tensor of type \<open>int64\<close>, and raises on an integer outside its range; the
  empty list gives a floating-point tensor.
\<close>

datatype tensor = LongTensor "nat list" | FloatTensor "rat list"

definition torch_tensor :: "nat list \<Rightarrow> error + tensor" where
  "torch_tensor xs =
     (if xs = [] then Inr (FloatTensor [])
      else if list_all (\<lambda>i. in_int64 (int i)) xs then Inr (LongTensor xs)
      else Inl RuntimeError)"

record model =
  embedding_weight :: "rat list list"
  fc_weight :: "rat list list"
  fc_bias :: "rat list"
  training :: bool

text \<open>
  What the script takes from the numeric library and does not define: the kernel of
  the embedding bag (weights, token indices, offsets), the loss criterion (logits,
  labels), and one optimisation step, which is \<open>zero_grad\<close>, \<open>backward\<close>, the gradient
  clipping to the given norm and the update with the given learning rate. Each may raise.
\<close>

record framework =
  embedding_bag :: "rat list list \<Rightarrow> tensor \<Rightarrow> nat list \<Rightarrow> error + rat list list"
  criterion :: "rat list list \<Rightarrow> int list \<Rightarrow> error + rat"
  backward_clip_step :: "rat \<Rightarrow> rat \<Rightarrow> model \<Rightarrow> batch \<Rightarrow> error + model"

text \<open>
  Modelled from the spec: the linear layer of the numeric library, one logit vector per
  sample, entry \<open>k\<close> the product of row \<open>k\<close> of the weight with the sample plus entry
  \<open>k\<close> of the bias. A sample whose length is not the weight's row length is refused.
\<close>

definition dot :: "rat list \<Rightarrow> rat list \<Rightarrow> rat" where
  "dot w x = sum_list (map2 (*) w x)"

definition linear :: "rat list list \<Rightarrow> rat list \<Rightarrow> rat list list \<Rightarrow> error + rat list list" where
  "linear W b X =
     (if list_all (\<lambda>x. list_all (\<lambda>w. length w = length x) W) X
      then Inr (map (\<lambda>x. map2 (\<lambda>w c. dot w x + c) W b) X)
      else Inl RuntimeError)"

text \<open>\<open>TextClassificationModel.forward\<close>.\<close>

definition forward :: "framework \<Rightarrow> model \<Rightarrow> tensor \<Rightarrow> nat list \<Rightarrow> error + rat list list" where
  "forward fw m tx offs =
     (case embedding_bag fw (embedding_weight m) tx offs of
        Inl e \<Rightarrow> Inl e
      | Inr embedded \<Rightarrow> linear (fc_weight m) (fc_bias m) embedded)"

subsection \<open>Initialisation\<close>

text \<open>
  Modelled from the spec: the in-place initialisers \<open>uniform_\<close> and \<open>zero_\<close> of the
  numeric library, the first of which draws the entries of a tensor uniformly from a
  range. The entries, row by row, become \<open>lo + (hi - lo) * u\<close> for the successive
  samples \<open>u\<close> of the random generator in the unit interval. The generator is the stream \<open>g\<close>, read from
  position \<open>k\<close>; the new position is returned with the tensor. \<open>zero_\<close> sets every
  entry to zero.
\<close>

fun uniform_fill :: "rat \<Rightarrow> rat \<Rightarrow> (nat \<Rightarrow> rat) \<Rightarrow> nat \<Rightarrow> rat list list \<Rightarrow> rat list list \<times> nat" where
  "uniform_fill lo hi g k [] = ([], k)"
| "uniform_fill lo hi g k (r # rs) =
     (case uniform_fill lo hi g (k + length r) rs of
        (rs', k') \<Rightarrow> (map (\<lambda>j. lo + (hi - lo) * g (k + j)) [0..<length r] # rs', k'))"

definition zero_fill :: "rat list \<Rightarrow> rat list" where
  "zero_fill b = map (\<lambda>_. 0) b"

definition init_weights :: "(nat \<Rightarrow> rat) \<Rightarrow> nat \<Rightarrow> model \<Rightarrow> model \<times> nat" where
  "init_weights g k m =
     (let initrange = 1 / 2 in
      case uniform_fill (- initrange) initrange g k (embedding_weight m) of
        (ew, k1) \<Rightarrow>
          (case uniform_fill (- initrange) initrange g k1 (fc_weight m) of
             (fcw, k2) \<Rightarrow>
               (m\<lparr>embedding_weight := ew, fc_weight := fcw, fc_bias := zero_fill (fc_bias m)\<rparr>, k2)))"

text \<open>
  \<open>TextClassificationModel.__init__\<close>: the two layers are created by the library with
  its own initial values, here the arbitrary \<open>d\<close>, and \<open>init_weights\<close> overwrites them.
  A new module is in training mode.
\<close>

definition TextClassificationModel ::
  "(nat \<Rightarrow> rat) \<Rightarrow> nat \<Rightarrow> (nat \<Rightarrow> nat \<Rightarrow> rat) \<Rightarrow> nat \<Rightarrow> nat \<Rightarrow> nat \<Rightarrow> model \<times> nat" where
  "TextClassificationModel g k d vocab_size embed_dim num_class =
     init_weights g k
       \<lparr>embedding_weight = map (\<lambda>i. map (d i) [0..<embed_dim]) [0..<vocab_size],
        fc_weight = map (\<lambda>i. map (d (vocab_size + i)) [0..<embed_dim]) [0..<num_class],
        fc_bias = map (\<lambda>i. d (vocab_size + num_class) i) [0..<num_class],
        training = True\<rparr>"

subsection \<open>Accuracy of a batch\<close>

text \<open>\<open>argmax(1)\<close>: for every row the index of its first maximal entry; a row with no
  entry is refused.\<close>

fun argmax_from :: "nat \<Rightarrow> rat \<Rightarrow> nat \<Rightarrow> rat list \<Rightarrow> nat" where
  "argmax_from bi bv i [] = bi"
| "argmax_from bi bv i (x # xs) =
     (if bv < x then argmax_from i x (Suc i) xs else argmax_from bi bv (Suc i) xs)"

definition argmax_row :: "rat list \<Rightarrow> nat" where
  "argmax_row r = (case r of [] \<Rightarrow> 0 | x # xs \<Rightarrow> argmax_from 0 x 1 xs)"

definition argmax1 :: "rat list list \<Rightarrow> error + nat list" where
  "argmax1 rows = (if [] \<in> set rows then Inl IndexError else Inr (map argmax_row rows))"

text \<open>
  \<open>(predicted == label).sum().item()\<close>: the number of positions where the two tensors
  agree. Tensors of equal length are compared entry by entry, a tensor of one entry is
  compared with every entry of the other, any other pair of lengths is refused.
\<close>

definition eq_count :: "nat list \<Rightarrow> int list \<Rightarrow> error + nat" where
  "eq_count p l =
     (if length p = length l then Inr (length (filter (\<lambda>(a, b). int a = b) (zip p l)))
      else if length p = 1 then Inr (length (filter (\<lambda>b. int (hd p) = b) l))
      else if length l = 1 then Inr (length (filter (\<lambda>a. int a = hd l) p))
      else Inl RuntimeError)"

subsection \<open>Training and evaluation passes\<close>

text \<open>
  One iteration over a data loader is the list of its batches. What the script prints
  is kept as a list of lines, with the numbers they show (elapsed times, which the
  model does not have, are left out); the passes that returned are recorded with them.
\<close>

datatype event =
    Progress nat nat nat rat
  | TrainPass nat
  | EvalPass nat
  | EndOfEpoch nat rat



text \<open>The loop of \<open>evaluate\<close>, under \<open>no_grad\<close>: nothing in it touches the model.\<close>

fun evaluate_loop ::
  "framework \<Rightarrow> model \<Rightarrow> batch list \<Rightarrow> nat \<times> nat \<Rightarrow> error + (nat \<times> nat)" where
  "evaluate_loop fw m [] acc = Inr acc"
| "evaluate_loop fw m (b # bs) (total_acc, total_count) =
     (case forward fw m (LongTensor (b_text b)) (b_offsets b) of
        Inl e \<Rightarrow> Inl e
      | Inr predited_label \<Rightarrow>
          (case criterion fw predited_label (b_label b) of
             Inl e \<Rightarrow> Inl e
           | Inr loss \<Rightarrow>
               (case argmax1 predited_label of
                  Inl e \<Rightarrow> Inl e
                | Inr am \<Rightarrow>
                    (case eq_count am (b_label b) of
                       Inl e \<Rightarrow> Inl e
                     | Inr c \<Rightarrow>
                         evaluate_loop fw m bs
                           (total_acc + c, total_count + length (b_label b))))))"

text \<open>\<open>evaluate\<close> returns the model as it leaves it, in evaluation mode, and the
  accuracy; the division of two integers raises on a zero divisor.\<close>

definition evaluate :: "framework \<Rightarrow> batch list \<Rightarrow> model \<Rightarrow> error + (model \<times> rat)" where
  "evaluate fw dataloader m =
     (let m' = m\<lparr>training := False\<rparr> in
      case evaluate_loop fw m' dataloader (0, 0) of
        Inl e \<Rightarrow> Inl e
      | Inr (total_acc, total_count) \<Rightarrow>
          (if total_count = 0 then Inl ZeroDivisionError
           else Inr (m', of_nat total_acc / of_nat total_count)))"

subsection \<open>The epoch loop\<close>


definition LR :: rat where
  "LR = 5"

text \<open>
  The learning rate of the optimizer, the epoch counter of the scheduler and the
  variable \<open>total_accu\<close>. The scheduler is \<open>StepLR\<close> with step size \<open>1\<close> and \<open>gamma\<close>
  \<open>0.1\<close>: a step counts one epoch and multiplies the learning rate by \<open>gamma\<close> when
  the count is a multiple of the step size.
\<close>

record control =
  lr :: rat
  last_epoch :: nat
  total_accu :: "rat option"

definition scheduler_step :: "nat \<Rightarrow> rat \<Rightarrow> control \<Rightarrow> control" where
  "scheduler_step step_size gamma c =
     c\<lparr>last_epoch := last_epoch c + 1,
       lr := (if (last_epoch c + 1) mod step_size = 0 then lr c * gamma else lr c)\<rparr>"

text \<open>The end of an epoch, lines 281 to 284, on the validation accuracy \<open>accu_val\<close>.\<close>

definition epoch_end :: "rat \<Rightarrow> control \<Rightarrow> control" where
  "epoch_end accu_val c =
     (case total_accu c of
        None \<Rightarrow> c\<lparr>total_accu := Some accu_val\<rparr>
      | Some best \<Rightarrow>
          (if accu_val < best then scheduler_step 1 (1 / 10) c
           else c\<lparr>total_accu := Some accu_val\<rparr>))"



subsection \<open>Prediction\<close>

definition ag_news_label :: "int \<rightharpoonup> string" where
  "ag_news_label = [1 \<mapsto> ''World'', 2 \<mapsto> ''Sports'', 3 \<mapsto> ''Business'', 4 \<mapsto> ''Sci/Tec'']"

text \<open>\<open>item()\<close> of a tensor: its only entry; a tensor of another size is refused.\<close>

definition item :: "nat list \<Rightarrow> error + nat" where
  "item t = (case t of [x] \<Rightarrow> Inr x | _ \<Rightarrow> Inl RuntimeError)"

text \<open>\<open>predict\<close>; its second argument is the text pipeline, here a function.\<close>

definition predict ::
  "framework \<Rightarrow> model \<Rightarrow> string \<Rightarrow> (string \<Rightarrow> error + nat list) \<Rightarrow> error + int" where
  "predict fw m tx pipeline =
     (case pipeline tx of
        Inl e \<Rightarrow> Inl e
      | Inr ids \<Rightarrow>
          (case torch_tensor ids of
             Inl e \<Rightarrow> Inl e
           | Inr t \<Rightarrow>
               (case forward fw m t [0] of
                  Inl e \<Rightarrow> Inl e
                | Inr output \<Rightarrow>
                    (case argmax1 output of
                       Inl e \<Rightarrow> Inl e
                     | Inr am \<Rightarrow>
                         (case item am of Inl e \<Rightarrow> Inl e | Inr k \<Rightarrow> Inr (int k + 1))))))"

text \<open>The last line of the script: the name of the predicted class is looked up in
  the dictionary and printed; a key the dictionary does not hold raises.\<close>

definition final_print ::
  "framework \<Rightarrow> model \<Rightarrow> string \<Rightarrow> (string \<Rightarrow> error + nat list) \<Rightarrow> error + string" where
  "final_print fw m ex_text_str pipeline =
     (case predict fw m ex_text_str pipeline of
        Inl e \<Rightarrow> Inl e
      | Inr k \<Rightarrow>
          (case ag_news_label k of
             None \<Rightarrow> Inl KeyError
           | Some name \<Rightarrow> Inr (''This is a '' @ name @ '' news'')))"

subsection \<open>Library calls that return\<close>

text \<open>
  The library calls of a pass return on the batch \<open>b\<close> under the model \<open>m\<close>: the batch
  holds a label, the forward pass gives one non-empty row of logits for each label, and
  the criterion returns a loss.
\<close>

definition batch_returns :: "framework \<Rightarrow> model \<Rightarrow> batch \<Rightarrow> bool" where
  "batch_returns fw m b =
     (b_label b \<noteq> [] \<and>
      (case forward fw m (LongTensor (b_text b)) (b_offsets b) of
         Inl e \<Rightarrow> False
       | Inr p \<Rightarrow>
           length p = length (b_label b) \<and> [] \<notin> set p \<and>
           (case criterion fw p (b_label b) of Inl e \<Rightarrow> False | Inr loss \<Rightarrow> True)))"

text \<open>The logits of a batch, and the number of its samples whose first maximal logit
  is at the index of the label.\<close>

definition logits :: "framework \<Rightarrow> model \<Rightarrow> batch \<Rightarrow> rat list list" where
  "logits fw m b =
     (case forward fw m (LongTensor (b_text b)) (b_offsets b) of Inl e \<Rightarrow> [] | Inr p \<Rightarrow> p)"

definition correct :: "framework \<Rightarrow> model \<Rightarrow> batch \<Rightarrow> nat" where
  "correct fw m b =
     length (filter (\<lambda>(row, l). int (argmax_row row) = l) (zip (logits fw m b) (b_label b)))"




text \<open>The output of a run without the progress lines of the training passes.\<close>

fun is_progress :: "event \<Rightarrow> bool" where
  "is_progress (Progress e i n a) = True"
| "is_progress (TrainPass e) = False"
| "is_progress (EvalPass e) = False"
| "is_progress (EndOfEpoch e a) = False"

definition summary :: "event list \<Rightarrow> event list" where
  "summary out = filter (\<lambda>e. \<not> is_progress e) out"

text \<open>The passes recorded in the output of a run.\<close>

fun is_pass :: "event \<Rightarrow> bool" where
  "is_pass (TrainPass e) = True"
| "is_pass (EvalPass e) = True"
| "is_pass (Progress e i n a) = False"
| "is_pass (EndOfEpoch e a) = False"

definition passes :: "event list \<Rightarrow> event list" where
  "passes out = filter is_pass out"

section \<open>Example data\<close>

text \<open>Small concrete inputs on which the theorems below are evaluated.\<close>

definition example_vocab :: vocab where
  "example_vocab = \<lparr>itos = [''<unk>'', ''the'', ''cat''], default_index = Some 0\<rparr>"

text \<open>A vocabulary that holds the four tokens of the documented example at the
  documented indices; the other positions are padding.\<close>

definition scenario_vocab :: vocab where
  "scenario_vocab =
     \<lparr>itos = replicate 21 ''<unk>'' @ ''is'' # replicate 8 ''<unk>'' @ ''an''
               # replicate 444 ''<unk>'' @ ''here'' # replicate 4810 ''<unk>'' @ [''example''],
      default_index = None\<rparr>"

text \<open>
  A framework for the examples. Its embedding bag gives, for each bag, the mean of the
  rows of the weight that the bag names, zeros for a bag that names none, and refuses
  an index beyond the weight and a tensor that is not an integer tensor; its criterion refuses a label that is not the
  index of a logit; its optimisation step moves the bias by the learning rate times
  the norm bound.
\<close>

fun bags :: "nat list \<Rightarrow> nat list \<Rightarrow> nat list list" where
  "bags ids [] = []"
| "bags ids [s] = [drop s ids]"
| "bags ids (s # s' # offs) = take (s' - s) (drop s ids) # bags ids (s' # offs)"

definition mean_rows :: "nat \<Rightarrow> rat list list \<Rightarrow> rat list" where
  "mean_rows n rows =
     (if rows = [] then replicate n 0
      else map (\<lambda>j. sum_list (map (\<lambda>r. r ! j) rows) / of_nat (length rows)) [0..<n])"

definition example_embedding_bag :: "rat list list \<Rightarrow> tensor \<Rightarrow> nat list \<Rightarrow> error + rat list list" where
  "example_embedding_bag W tx offs =
     (case tx of
        FloatTensor xs \<Rightarrow> Inl RuntimeError
      | LongTensor ids \<Rightarrow>
          (if list_all (\<lambda>i. i < length W) ids
           then Inr (map (\<lambda>bag. mean_rows (length (hd W)) (map (\<lambda>i. W ! i) bag)) (bags ids offs))
           else Inl IndexError))"

definition example_criterion :: "rat list list \<Rightarrow> int list \<Rightarrow> error + rat" where
  "example_criterion p l =
     (if list_all (\<lambda>(row, y). 0 \<le> y \<and> y < int (length row)) (zip p l)
      then Inr 0 else Inl IndexError)"

definition example_step :: "rat \<Rightarrow> rat \<Rightarrow> model \<Rightarrow> batch \<Rightarrow> error + model" where
  "example_step rate max_norm m b = Inr (m\<lparr>fc_bias := map (\<lambda>x. x + rate * max_norm) (fc_bias m)\<rparr>)"

definition example_framework :: framework where
  "example_framework =
     \<lparr>embedding_bag = example_embedding_bag, criterion = example_criterion,
      backward_clip_step = example_step\<rparr>"

definition example_model :: model where
  "example_model =
     \<lparr>embedding_weight = [[0, 0], [1, 0], [0, 1]],
      fc_weight = [[1, 0], [0, 1], [-1, 0], [0, -1]],
      fc_bias = [0, 0, 0, 0],
      training = True\<rparr>"

definition example_batch :: batch where
  "example_batch = \<lparr>b_label = [2, 0, 1], b_text = [1, 2, 0, 2], b_offsets = [0, 3, 3]\<rparr>"

section \<open>Properties of the data pipeline\<close>

text \<open>
  C2, as the code has it. On integer labels the label pipeline has no range check:
  every integer \<open>k\<close> gives \<open>k - 1\<close> and nothing is raised. It is a bijection from
  \<open>{1,2,3,4}\<close> to \<open>{0,1,2,3}\<close>, and its result is outside \<open>{0,1,2,3}\<close> exactly when \<open>k\<close>
  is outside \<open>{1,2,3,4}\<close>.
\<close>

theorem label_pipeline_no_range_check:
  "(\<forall>k. label_pipeline (PInt k) = Inr (k - 1))
   \<and> bij_betw (\<lambda>k. projr (label_pipeline (PInt k))) {1, 2, 3, 4} {0, 1, 2, 3}
   \<and> (\<forall>k. (k - 1 \<in> {0, 1, 2, 3 :: int}) = (k \<in> {1, 2, 3, 4}))"
proof -
  have a: "label_pipeline (PInt k) = Inr (k - 1)" for k
    by (simp add: label_pipeline_def)
  have "bij_betw (\<lambda>k :: int. k - 1) {1, 2, 3, 4} {0, 1, 2, 3}"
    by (rule bij_betw_byWitness [where f' = "\<lambda>k. k + 1"]) auto
  then have b: "bij_betw (\<lambda>k. projr (label_pipeline (PInt k))) {1, 2, 3, 4} {0, 1, 2, 3}"
    by (simp add: a)
  have c: "(k - 1 \<in> {0, 1, 2, 3 :: int}) = (k \<in> {1, 2, 3, 4})" for k
    by auto
  show ?thesis using a b c by blast
qed

text \<open>
  C2 as stated fails: the label \<open>5\<close> is outside \<open>{1,2,3,4}\<close>, the pipeline returns the
  class \<open>4\<close>, outside \<open>{0,1,2,3}\<close>, and \<open>collate_batch\<close> puts it in the batch.
\<close>

theorem label_pipeline_out_of_range:
  "label_pipeline (PInt 5) = Inr 4 \<and> (5 :: int) \<notin> {1, 2, 3, 4} \<and> (4 :: int) \<notin> {0, 1, 2, 3}
   \<and> collate_batch spec_tokenizer example_vocab [(PInt 5, ''the cat'')]
       = Inr \<lparr>b_label = [4], b_text = [1, 2], b_offsets = [0]\<rparr>"
  by code_simp

subsection \<open>Vocabulary lookup\<close>

lemma vocab_call_default:
  "default_index v = Some d \<Longrightarrow>
   vocab_call v ts = Inr (map (\<lambda>t. case index_of (itos v) t of Some i \<Rightarrow> i | None \<Rightarrow> d) ts)"
  by (induction ts) (auto simp: vocab_getitem_def split: option.splits)

lemma script_vocab_eq:
  "script_vocab tok corpus =
     Inr \<lparr>itos = ''<unk>'' # first_seen [''<unk>''] (concat (yield_tokens tok corpus)),
          default_index = Some 0\<rparr>"
  by (simp add: script_vocab_def build_vocab_from_iterator_def vocab_getitem_def
      set_default_index_def)

lemma index_of_replicate:
  "t \<noteq> p \<Longrightarrow> index_of (replicate n p @ ys) t =
     (case index_of ys t of None \<Rightarrow> None | Some i \<Rightarrow> Some (n + i))"
  by (induction n) (auto split: option.splits)

lemma scenario_lookup:
  "vocab_getitem scenario_vocab ''here'' = Inr 475"
  "vocab_getitem scenario_vocab ''is'' = Inr 21"
  "vocab_getitem scenario_vocab ''an'' = Inr 30"
  "vocab_getitem scenario_vocab ''example'' = Inr 5286"
  by (simp_all add: vocab_getitem_def scenario_vocab_def index_of_replicate)

lemma tok_ex: "spec_tokenizer ''here is an example'' = [''here'', ''is'', ''an'', ''example'']"
  by code_simp


text \<open>
  C4. With the vocabulary the script builds from any training split, the text pipeline
  returns, for every text, the tokens of the text each replaced by its index in the
  vocabulary, a token the vocabulary does not hold by the default index \<open>0\<close>. With any
  vocabulary that maps \<open>here\<close>, \<open>is\<close>, \<open>an\<close>, \<open>example\<close> to \<open>475\<close>, \<open>21\<close>, \<open>30\<close>, \<open>5286\<close>, and
  a tokenizer that splits the text into these four words, the text
  \<open>here is an example\<close> is encoded as \<open>[475, 21, 30, 5286]\<close>.
\<close>

theorem text_pipeline_encodes:
  "(\<exists>v. script_vocab tok corpus = Inr v
        \<and> default_index v = Some 0
        \<and> text_pipeline tok v x =
            Inr (map (\<lambda>t. case index_of (itos v) t of Some i \<Rightarrow> i | None \<Rightarrow> 0) (tok x)))
   \<and> (tok ''here is an example'' = [''here'', ''is'', ''an'', ''example'']
        \<longrightarrow> vocab_getitem w ''here'' = Inr 475 \<longrightarrow> vocab_getitem w ''is'' = Inr 21
        \<longrightarrow> vocab_getitem w ''an'' = Inr 30 \<longrightarrow> vocab_getitem w ''example'' = Inr 5286
        \<longrightarrow> text_pipeline tok w ''here is an example'' = Inr [475, 21, 30, 5286])"
proof (intro conjI impI)
  let ?v = "\<lparr>itos = ''<unk>'' # first_seen [''<unk>''] (concat (yield_tokens tok corpus)),
            default_index = Some 0\<rparr>"
  have "default_index ?v = Some 0" by simp
  from vocab_call_default [OF this, of "tok x"]
  show "\<exists>v. script_vocab tok corpus = Inr v \<and> default_index v = Some 0
        \<and> text_pipeline tok v x =
            Inr (map (\<lambda>t. case index_of (itos v) t of Some i \<Rightarrow> i | None \<Rightarrow> 0) (tok x))"
    by (intro exI [of _ ?v]) (simp add: script_vocab_eq text_pipeline_def)
next
  assume "tok ''here is an example'' = [''here'', ''is'', ''an'', ''example'']"
    "vocab_getitem w ''here'' = Inr 475" "vocab_getitem w ''is'' = Inr 21"
    "vocab_getitem w ''an'' = Inr 30" "vocab_getitem w ''example'' = Inr 5286"
  then show "text_pipeline tok w ''here is an example'' = Inr [475, 21, 30, 5286]"
    by (simp add: text_pipeline_def)
qed

theorem text_pipeline_encodes_witness:
  "spec_tokenizer ''here is an example'' = [''here'', ''is'', ''an'', ''example'']
   \<and> vocab_getitem scenario_vocab ''here'' = Inr 475
   \<and> vocab_getitem scenario_vocab ''is'' = Inr 21
   \<and> vocab_getitem scenario_vocab ''an'' = Inr 30
   \<and> vocab_getitem scenario_vocab ''example'' = Inr 5286
   \<and> text_pipeline spec_tokenizer scenario_vocab ''here is an example'' = Inr [475, 21, 30, 5286]
   \<and> (\<exists>v. script_vocab spec_tokenizer [(PInt 3, ''The cat''), (PInt 1, ''the mat'')] = Inr v
          \<and> default_index v = Some 0
          \<and> itos v = [''<unk>'', ''the'', ''cat'', ''mat'']
          \<and> text_pipeline spec_tokenizer v ''A cat, the Mat'' = Inr [0, 0, 1, 3])"
proof -
  let ?corpus = "[(PInt 3, ''The cat''), (PInt 1, ''the mat'')]"
  note th = text_pipeline_encodes [of spec_tokenizer ?corpus "''A cat, the Mat''" scenario_vocab]
  from th obtain v where v: "script_vocab spec_tokenizer ?corpus = Inr v"
    "default_index v = Some 0"
    "text_pipeline spec_tokenizer v ''A cat, the Mat'' =
       Inr (map (\<lambda>t. case index_of (itos v) t of Some i \<Rightarrow> i | None \<Rightarrow> 0)
              (spec_tokenizer ''A cat, the Mat''))"
    by blast
  have sv: "script_vocab spec_tokenizer ?corpus =
              Inr \<lparr>itos = [''<unk>'', ''the'', ''cat'', ''mat''], default_index = Some 0\<rparr>"
    by code_simp
  with v(1) have iv: "itos v = [''<unk>'', ''the'', ''cat'', ''mat'']" by auto
  have tk: "spec_tokenizer ''A cat, the Mat'' = [''a'', ''cat,'', ''the'', ''mat'']"
    by code_simp
  from v(3) have enc: "text_pipeline spec_tokenizer v ''A cat, the Mat'' = Inr [0, 0, 1, 3]"
    by (simp add: iv tk)
  from th tok_ex scenario_lookup
  have sc: "text_pipeline spec_tokenizer scenario_vocab ''here is an example''
              = Inr [475, 21, 30, 5286]"
    by blast
  show ?thesis
    using tok_ex scenario_lookup sc v(1,2) iv enc by (intro conjI exI [of _ v]) simp_all
qed

text \<open>
  C3. The label pipeline applied to the string \<open>"10"\<close> returns \<open>9\<close>: the string
  parses to the integer ten, from which one is subtracted.
\<close>

theorem label_pipeline_string_10: "label_pipeline (PStr ''10'') = Inr 9"
  by (simp add: label_pipeline_def py_int_str_def py_strip_def py_isspace_def digit_of_def
      max_str_digits_def)


lemma collate_loop_list_all2:
  assumes "list_all2 (\<lambda>(lbl, s) (l, e). label_pipeline lbl = Inr l \<and> in_int64 l
                       \<and> text_pipeline tok v s = Inr e \<and> list_all (\<lambda>i. in_int64 (int i)) e) b enc"
  shows "collate_loop tok v b (ls, ts, os) =
         Inr (ls @ map fst enc, ts @ map snd enc, os @ map (length \<circ> snd) enc)"
  using assms
proof (induction b enc arbitrary: ls ts os rule: list_all2_induct)
  case Nil
  then show ?case by simp
next
  case (Cons x xs y ys)
  obtain lbl s where x: "x = (lbl, s)" by (cases x)
  obtain l e where y: "y = (l, e)" by (cases y)
  from Cons.hyps(1) x y have "label_pipeline lbl = Inr l" "text_pipeline tok v s = Inr e"
    "list_all (\<lambda>i. in_int64 (int i)) e"
    by auto
  then show ?case using Cons.IH x y by simp
qed

lemma collate_labels_int64:
  assumes "list_all2 (\<lambda>(lbl, s) (l, e). label_pipeline lbl = Inr l \<and> in_int64 l
                       \<and> text_pipeline tok v s = Inr e \<and> list_all (\<lambda>i. in_int64 (int i)) e) b enc"
  shows "list_all in_int64 (map fst enc)"
  using assms by (induction b enc rule: list_all2_induct) auto

text \<open>A label beyond 64 bits is refused when the tensor of the labels is built.\<close>

lemma collate_batch_overflow:
  "collate_batch spec_tokenizer example_vocab [(PInt (2 ^ 63 + 1), ''the'')] = Inl RuntimeError"
  by code_simp

lemma cumsum_from_length: "length (cumsum_from s xs) = length xs"
  by (induction xs arbitrary: s) auto

lemma cumsum_from_nth:
  "i < length xs \<Longrightarrow> cumsum_from s xs ! i = s + sum_list (take (Suc i) xs)"
proof (induction xs arbitrary: s i)
  case Nil
  then show ?case by simp
next
  case (Cons x xs)
  then show ?case by (cases i) auto
qed

lemma run_of_concat:
  "i < length es \<Longrightarrow>
   take (length (es ! i)) (drop (sum_list (map length (take i es))) (concat es)) = es ! i"
proof (induction es arbitrary: i)
  case Nil
  then show ?case by simp
next
  case (Cons e es)
  then show ?case by (cases i) auto
qed

lemma offsets_nth:
  assumes "i < length cs"
  shows "cumsum (butlast (0 # cs)) ! i = sum_list (take i cs)"
proof -
  from assms have ne: "cs \<noteq> []" by auto
  have len: "i < length (0 # butlast cs)" using assms by simp
  have "cumsum (butlast (0 # cs)) ! i = sum_list (take (Suc i) (0 # butlast cs))"
    using ne cumsum_from_nth [OF len, of 0] by (simp add: cumsum_def)
  also have "\<dots> = sum_list (take i (butlast cs))" by simp
  also have "\<dots> = sum_list (take i cs)"
    using assms by (simp add: take_butlast)
  finally show ?thesis .
qed

text \<open>
  C1. A batch of \<open>n \<ge> 1\<close> samples on which the two pipelines return, sample \<open>i\<close> giving
  the label \<open>l\<^sub>i\<close> and the encoded text \<open>e\<^sub>i\<close>, integers of 64 bits as the tensors
  hold them: \<open>collate_batch\<close> returns the labels
  \<open>l\<^sub>1 \<dots> l\<^sub>n\<close> in the order of the input, \<open>n\<close> offsets of which the first is \<open>0\<close> and
  the one of sample \<open>i\<close> is the sum of the lengths of the texts before it, and the
  concatenation of the texts, whose length is the sum of all lengths and in which the
  run that starts at the offset of sample \<open>i\<close> is \<open>e\<^sub>i\<close>.
\<close>

theorem collate_batch_correct:
  assumes "b \<noteq> []"
    and "list_all2 (\<lambda>(lbl, s) (l, e). label_pipeline lbl = Inr l \<and> in_int64 l
                       \<and> text_pipeline tok v s = Inr e \<and> list_all (\<lambda>i. in_int64 (int i)) e) b enc"
  shows "\<exists>r. collate_batch tok v b = Inr r
           \<and> b_label r = map fst enc \<and> length (b_label r) = length b
           \<and> length (b_offsets r) = length b \<and> b_offsets r ! 0 = 0
           \<and> (\<forall>i < length b. b_offsets r ! i = sum_list (map (length \<circ> snd) (take i enc)))
           \<and> b_text r = concat (map snd enc)
           \<and> length (b_text r) = sum_list (map (length \<circ> snd) enc)
           \<and> (\<forall>i < length b.
                 take (length (snd (enc ! i))) (drop (b_offsets r ! i) (b_text r)) = snd (enc ! i))"
proof -
  let ?cs = "map (length \<circ> snd) enc"
  let ?r = "\<lparr>b_label = map fst enc, b_text = concat (map snd enc),
             b_offsets = cumsum (butlast (0 # ?cs))\<rparr>"
  from assms(2) have len: "length enc = length b" by (simp add: list_all2_lengthD)
  with assms(1) have ne: "enc \<noteq> []" by auto
  have loop: "collate_loop tok v b ([], [], [0]) = Inr (map fst enc, map snd enc, 0 # ?cs)"
    using collate_loop_list_all2 [OF assms(2), of "[]" "[]" "[0]"] by simp
  have res: "collate_batch tok v b = Inr ?r"
    using ne collate_labels_int64 [OF assms(2)] by (simp add: collate_batch_def loop torch_cat_def)
  have offs: "b_offsets ?r ! i = sum_list (map (length \<circ> snd) (take i enc))" if "i < length b" for i
    using that len offsets_nth [of i ?cs] by (simp add: take_map)
  have run: "take (length (snd (enc ! i))) (drop (b_offsets ?r ! i) (b_text ?r)) = snd (enc ! i)"
    if "i < length b" for i
  proof -
    from that len have i: "i < length (map snd enc)" by simp
    have "sum_list (map (length \<circ> snd) (take i enc)) = sum_list (map length (take i (map snd enc)))"
      by (simp add: take_map comp_def)
    then show ?thesis using run_of_concat [OF i] offs [OF that] i by simp
  qed
  have zero: "b_offsets ?r ! 0 = 0"
    using offs [of 0] assms(1) by simp
  have lo: "length (b_offsets ?r) = length b"
    using ne len by (cases enc) (auto simp: cumsum_def cumsum_from_length)
  have lt: "length (b_text ?r) = sum_list (map (length \<circ> snd) enc)"
    by (simp add: length_concat comp_def)
  show ?thesis
    using res len lo zero offs run lt by (intro exI [of _ ?r]) simp
qed

theorem collate_batch_correct_witness:
  "[(PInt 3, ''The cat  sat''), (PInt 1, ''''), (PInt 4, ''cat'')] \<noteq> []
   \<and> in_int64 2 \<and> in_int64 0 \<and> in_int64 3
   \<and> label_pipeline (PInt 3) = Inr 2 \<and> text_pipeline spec_tokenizer example_vocab ''The cat  sat'' = Inr [1, 2, 0]
   \<and> label_pipeline (PInt 1) = Inr 0 \<and> text_pipeline spec_tokenizer example_vocab '''' = Inr []
   \<and> label_pipeline (PInt 4) = Inr 3 \<and> text_pipeline spec_tokenizer example_vocab ''cat'' = Inr [2]
   \<and> (\<exists>r. collate_batch spec_tokenizer example_vocab
              [(PInt 3, ''The cat  sat''), (PInt 1, ''''), (PInt 4, ''cat'')] = Inr r
          \<and> b_label r = [2, 0, 3] \<and> length (b_offsets r) = 3
          \<and> b_offsets r ! 0 = 0 \<and> b_offsets r ! 1 = 3 \<and> b_offsets r ! 2 = 3
          \<and> b_text r = [1, 2, 0, 2] \<and> length (b_text r) = 4
          \<and> take 3 (drop (b_offsets r ! 0) (b_text r)) = [1, 2, 0]
          \<and> take 0 (drop (b_offsets r ! 1) (b_text r)) = []
          \<and> take 1 (drop (b_offsets r ! 2) (b_text r)) = [2])"
proof -
  let ?b = "[(PInt 3, ''The cat  sat''), (PInt 1, ''''), (PInt 4, ''cat'')]"
  let ?enc = "[(2 :: int, [1, 2, 0 :: nat]), (0, []), (3, [2])]"
  have ne: "?b \<noteq> []" by simp
  have p1: "label_pipeline (PInt 3) = Inr 2" "label_pipeline (PInt 1) = Inr 0"
    "label_pipeline (PInt 4) = Inr 3"
    by (simp_all add: label_pipeline_def)
  have p2: "text_pipeline spec_tokenizer example_vocab ''The cat  sat'' = Inr [1, 2, 0]"
    "text_pipeline spec_tokenizer example_vocab '''' = Inr []"
    "text_pipeline spec_tokenizer example_vocab ''cat'' = Inr [2]"
    by code_simp+
  have p3: "in_int64 2" "in_int64 0" "in_int64 3" "in_int64 1"
    by (simp_all add: in_int64_def)
  have rel: "list_all2 (\<lambda>(lbl, s) (l, e). label_pipeline lbl = Inr l \<and> in_int64 l
               \<and> text_pipeline spec_tokenizer example_vocab s = Inr e
               \<and> list_all (\<lambda>i. in_int64 (int i)) e) ?b ?enc"
    using p1 p2 p3 by simp
  from collate_batch_correct [OF ne rel] obtain r where
    r: "collate_batch spec_tokenizer example_vocab ?b = Inr r" "b_label r = map fst ?enc"
      "length (b_offsets r) = length ?b" "b_offsets r ! 0 = 0"
      "\<forall>i < length ?b. b_offsets r ! i = sum_list (map (length \<circ> snd) (take i ?enc))"
      "b_text r = concat (map snd ?enc)"
      "length (b_text r) = sum_list (map (length \<circ> snd) ?enc)"
      "\<forall>i < length ?b. take (length (snd (?enc ! i))) (drop (b_offsets r ! i) (b_text r)) = snd (?enc ! i)"
    by blast
  from r(5) [rule_format, of 1] have o1: "b_offsets r ! 1 = 3" by simp
  from r(5) [rule_format, of 2] have o2: "b_offsets r ! 2 = 3" by simp
  from r(8) [rule_format, of 0] have t0: "take 3 (drop (b_offsets r ! 0) (b_text r)) = [1, 2, 0]"
    by (simp add: numeral_3_eq_3)
  from r(8) [rule_format, of 2] have t2: "take 1 (drop (b_offsets r ! 2) (b_text r)) = [2]"
    by simp
  have ev: "collate_batch spec_tokenizer example_vocab ?b
              = Inr \<lparr>b_label = [2, 0, 3], b_text = [1, 2, 0, 2], b_offsets = [0, 3, 3]\<rparr>"
    by code_simp
  show ?thesis
    using ne p1 p2 p3 r(1,2,3,4,6,7) o1 o2 t0 t2 ev by (intro conjI exI [of _ r]) simp_all
qed

section \<open>Properties of training and evaluation\<close>

subsection \<open>The learning rate at the end of an epoch\<close>

lemma epoch_end_best:
  "total_accu (foldl (\<lambda>c a. epoch_end a c) c accs) =
     (case total_accu c of
        None \<Rightarrow> (if accs = [] then None else Some (Max (set accs)))
      | Some best \<Rightarrow> Some (Max (insert best (set accs))))"
proof (induction accs arbitrary: c)
  case Nil
  then show ?case by (simp split: option.splits)
next
  case (Cons a accs)
  show ?case
  proof (cases "total_accu c")
    case None
    then have "total_accu (epoch_end a c) = Some a" by (simp add: epoch_end_def)
    then show ?thesis using None Cons.IH [of "epoch_end a c"] by simp
  next
    case (Some best)
    show ?thesis
    proof (cases "a < best")
      case True
      then have e: "total_accu (epoch_end a c) = Some best"
        using Some by (simp add: epoch_end_def scheduler_step_def)
      have "best \<le> Max (insert best (set accs))" by simp
      with True have "a \<le> Max (insert best (set accs))" by linarith
      then have "max a (Max (insert best (set accs))) = Max (insert best (set accs))"
        by (rule max.absorb2)
      moreover have "Max (insert a (insert best (set accs))) = max a (Max (insert best (set accs)))"
        by (rule Max_insert) simp_all
      ultimately have "Max (insert best (set accs)) = Max (insert best (insert a (set accs)))"
        by (simp add: insert_commute)
      then show ?thesis using Some e Cons.IH [of "epoch_end a c"] by simp
    next
      case False
      then have e: "total_accu (epoch_end a c) = Some a"
        using Some by (simp add: epoch_end_def)
      have "a \<le> Max (insert a (set accs))" by simp
      with False have "best \<le> Max (insert a (set accs))" by linarith
      then have "max best (Max (insert a (set accs))) = Max (insert a (set accs))"
        by (rule max.absorb2)
      moreover have "Max (insert best (insert a (set accs))) = max best (Max (insert a (set accs)))"
        by (rule Max_insert) simp_all
      ultimately have "Max (insert a (set accs)) = Max (insert best (insert a (set accs)))"
        by simp
      then show ?thesis using Some e Cons.IH [of "epoch_end a c"] by simp
    qed
  qed
qed

text \<open>
  C5, as the code has it. At the end of an epoch with validation accuracy \<open>a\<close>: in the
  first epoch \<open>a\<close> is recorded and the learning rate is unchanged; when \<open>a\<close> is strictly
  below the recorded accuracy, the learning rate is multiplied by \<open>0.1\<close> and the record
  is kept; when \<open>a\<close> is equal to or above the record, \<open>a\<close> is recorded and the learning
  rate is unchanged. The record is the best validation accuracy of the epochs so far.
\<close>

theorem epoch_end_decay:
  "(total_accu c = None \<longrightarrow>
      total_accu (epoch_end a c) = Some a \<and> lr (epoch_end a c) = lr c)
   \<and> (total_accu c = Some best \<and> a < best \<longrightarrow>
      total_accu (epoch_end a c) = Some best \<and> lr (epoch_end a c) = lr c * (1 / 10))
   \<and> (total_accu c = Some best \<and> best \<le> a \<longrightarrow>
      total_accu (epoch_end a c) = Some a \<and> lr (epoch_end a c) = lr c)
   \<and> (accs \<noteq> [] \<longrightarrow>
      total_accu (foldl (\<lambda>c a. epoch_end a c) \<lparr>lr = LR, last_epoch = 0, total_accu = None\<rparr> accs)
        = Some (Max (set accs)))"
proof (intro conjI impI)
  assume "accs \<noteq> []"
  then show "total_accu (foldl (\<lambda>c a. epoch_end a c) \<lparr>lr = LR, last_epoch = 0, total_accu = None\<rparr> accs)
        = Some (Max (set accs))"
    by (simp add: epoch_end_best)
qed (auto simp: epoch_end_def scheduler_step_def)

theorem epoch_end_decay_witness:
  "epoch_end (3 / 5) \<lparr>lr = 5, last_epoch = 0, total_accu = None\<rparr>
     = \<lparr>lr = 5, last_epoch = 0, total_accu = Some (3 / 5)\<rparr>
   \<and> epoch_end (1 / 2) \<lparr>lr = 5, last_epoch = 0, total_accu = Some (3 / 5)\<rparr>
     = \<lparr>lr = 1 / 2, last_epoch = 1, total_accu = Some (3 / 5)\<rparr>
   \<and> epoch_end (4 / 5) \<lparr>lr = 1 / 2, last_epoch = 1, total_accu = Some (3 / 5)\<rparr>
     = \<lparr>lr = 1 / 2, last_epoch = 1, total_accu = Some (4 / 5)\<rparr>
   \<and> total_accu (foldl (\<lambda>c a. epoch_end a c) \<lparr>lr = LR, last_epoch = 0, total_accu = None\<rparr>
        [3 / 5, 1 / 2, 4 / 5]) = Some (4 / 5)"
proof -
  let ?c0 = "\<lparr>lr = 5, last_epoch = 0, total_accu = None\<rparr>"
  let ?c1 = "\<lparr>lr = 5, last_epoch = 0, total_accu = Some (3 / 5)\<rparr>"
  let ?c2 = "\<lparr>lr = 1 / 2, last_epoch = 1, total_accu = Some (3 / 5 :: rat)\<rparr>"
  have le: "last_epoch (epoch_end (3 / 5) ?c0) = 0" "last_epoch (epoch_end (1 / 2) ?c1) = 1"
    "last_epoch (epoch_end (4 / 5) ?c2) = 1"
    by (simp_all add: epoch_end_def scheduler_step_def)
  from epoch_end_decay [of ?c0 "3 / 5" 0 "[3 / 5, 1 / 2, 4 / 5]"]
  have a: "epoch_end (3 / 5) ?c0 = ?c1"
    and d: "total_accu (foldl (\<lambda>c a. epoch_end a c) \<lparr>lr = LR, last_epoch = 0, total_accu = None\<rparr>
        [3 / 5, 1 / 2, 4 / 5]) = Some (4 / 5)"
    using le(1) by (auto intro!: control.equality)
  from epoch_end_decay [of ?c1 "1 / 2" "3 / 5" "[]"]
  have b: "epoch_end (1 / 2) ?c1 = ?c2"
    using le(2) by (auto intro!: control.equality)
  from epoch_end_decay [of ?c2 "4 / 5" "3 / 5" "[]"]
  have c: "epoch_end (4 / 5) ?c2 = \<lparr>lr = 1 / 2, last_epoch = 1, total_accu = Some (4 / 5)\<rparr>"
    using le(3) by (auto intro!: control.equality)
  show ?thesis using a b c d by simp
qed

text \<open>
  C5 as stated fails on a tie: an epoch whose validation accuracy equals the best so
  far has not improved on it, and the learning rate is left as it is.
\<close>

theorem epoch_end_tie_keeps_lr:
  "\<not> (1 / 2 :: rat) < 1 / 2
   \<and> lr (epoch_end (1 / 2) \<lparr>lr = 5, last_epoch = 0, total_accu = Some (1 / 2)\<rparr>) = 5
   \<and> lr (epoch_end (1 / 2) \<lparr>lr = 5, last_epoch = 0, total_accu = Some (1 / 2)\<rparr>) \<noteq> 5 * (1 / 10)"
  by (simp add: epoch_end_def)

subsection \<open>The index of the first maximal logit\<close>

lemma argmax_from_spec:
  assumes "length pre = i" "bi < i" "pre ! bi = bv"
    "\<forall>j < i. pre ! j \<le> bv" "\<forall>j < bi. pre ! j < bv"
  shows "argmax_from bi bv i xs < length (pre @ xs)
         \<and> (\<forall>j < length (pre @ xs). (pre @ xs) ! j \<le> (pre @ xs) ! argmax_from bi bv i xs)
         \<and> (\<forall>j < argmax_from bi bv i xs. (pre @ xs) ! j < (pre @ xs) ! argmax_from bi bv i xs)"
  using assms
proof (induction xs arbitrary: bi bv i pre)
  case Nil
  then show ?case by auto
next
  case (Cons x xs)
  let ?pre = "pre @ [x]"
  have app: "pre @ x # xs = ?pre @ xs" by simp
  show ?case
  proof (cases "bv < x")
    case True
    have "argmax_from i x (Suc i) xs < length (?pre @ xs)
         \<and> (\<forall>j < length (?pre @ xs). (?pre @ xs) ! j \<le> (?pre @ xs) ! argmax_from i x (Suc i) xs)
         \<and> (\<forall>j < argmax_from i x (Suc i) xs. (?pre @ xs) ! j < (?pre @ xs) ! argmax_from i x (Suc i) xs)"
    proof (rule Cons.IH)
      show "length ?pre = Suc i" using Cons.prems(1) by simp
      show "i < Suc i" by simp
      show "?pre ! i = x" using Cons.prems(1) by (auto simp: nth_append)
      show "\<forall>j < Suc i. ?pre ! j \<le> x"
        using Cons.prems(1,4) True by (auto simp: nth_append less_Suc_eq intro: order.trans less_imp_le)
      show "\<forall>j < i. ?pre ! j < x"
        using Cons.prems(1,4) True by (auto simp: nth_append intro: le_less_trans)
    qed
    then show ?thesis using True by simp
  next
    case False
    have "argmax_from bi bv (Suc i) xs < length (?pre @ xs)
         \<and> (\<forall>j < length (?pre @ xs). (?pre @ xs) ! j \<le> (?pre @ xs) ! argmax_from bi bv (Suc i) xs)
         \<and> (\<forall>j < argmax_from bi bv (Suc i) xs. (?pre @ xs) ! j < (?pre @ xs) ! argmax_from bi bv (Suc i) xs)"
    proof (rule Cons.IH)
      show "length ?pre = Suc i" using Cons.prems(1) by simp
      show "bi < Suc i" using Cons.prems(2) by simp
      show "?pre ! bi = bv" using Cons.prems(1,2,3) by (simp add: nth_append)
      show "\<forall>j < Suc i. ?pre ! j \<le> bv"
        using Cons.prems(1,4) False by (auto simp: nth_append less_Suc_eq)
      show "\<forall>j < bi. ?pre ! j < bv"
        using Cons.prems(1,2,5) by (auto simp: nth_append)
    qed
    then show ?thesis using False by simp
  qed
qed

lemma argmax_row_spec:
  assumes "r \<noteq> []"
  shows "argmax_row r < length r
         \<and> (\<forall>j < length r. r ! j \<le> r ! argmax_row r)
         \<and> (\<forall>j < argmax_row r. r ! j < r ! argmax_row r)"
proof -
  from assms obtain x xs where r: "r = x # xs" by (cases r) auto
  have "argmax_from 0 x 1 xs < length ([x] @ xs)
         \<and> (\<forall>j < length ([x] @ xs). ([x] @ xs) ! j \<le> ([x] @ xs) ! argmax_from 0 x 1 xs)
         \<and> (\<forall>j < argmax_from 0 x 1 xs. ([x] @ xs) ! j < ([x] @ xs) ! argmax_from 0 x 1 xs)"
    by (rule argmax_from_spec) auto
  then show ?thesis by (simp add: r argmax_row_def)
qed

lemma argmax_row_less: "r \<noteq> [] \<Longrightarrow> argmax_row r < length r"
  using argmax_row_spec by blast

subsection \<open>Evaluation\<close>

lemma forward_training [simp]: "forward fw (m\<lparr>training := t\<rparr>) tx offs = forward fw m tx offs"
  by (simp add: forward_def split: sum.splits)

lemma batch_returns_training [simp]:
  "batch_returns fw (m\<lparr>training := t\<rparr>) b = batch_returns fw m b"
  by (simp add: batch_returns_def)

lemma correct_training [simp]: "correct fw (m\<lparr>training := t\<rparr>) = correct fw m"
  by (rule ext) (simp add: correct_def logits_def)

lemma eq_count_argmax:
  assumes "length p = length l"
  shows "eq_count (map argmax_row p) l =
           Inr (length (filter (\<lambda>(row, y). int (argmax_row row) = y) (zip p l)))"
proof -
  have "zip (map argmax_row p) l = map (\<lambda>(row, y). (argmax_row row, y)) (zip p l)"
    by (simp add: zip_map1)
  then have "filter (\<lambda>(a, b). int a = b) (zip (map argmax_row p) l)
               = map (\<lambda>(row, y). (argmax_row row, y))
                   (filter (\<lambda>(row, y). int (argmax_row row) = y) (zip p l))"
    by (simp add: filter_map comp_def case_prod_unfold)
  then show ?thesis using assms by (simp add: eq_count_def)
qed

lemma batch_returnsD:
  assumes "batch_returns fw m b"
  obtains p loss where "forward fw m (LongTensor (b_text b)) (b_offsets b) = Inr p"
    "length p = length (b_label b)" "[] \<notin> set p" "criterion fw p (b_label b) = Inr loss"
    "b_label b \<noteq> []" "argmax1 p = Inr (map argmax_row p)"
    "eq_count (map argmax_row p) (b_label b) = Inr (correct fw m b)"
proof -
  from assms obtain p where p: "forward fw m (LongTensor (b_text b)) (b_offsets b) = Inr p"
    by (auto simp: batch_returns_def split: sum.splits)
  with assms have s: "length p = length (b_label b)" "[] \<notin> set p" "b_label b \<noteq> []"
    by (auto simp: batch_returns_def)
  from assms p obtain loss where l: "criterion fw p (b_label b) = Inr loss"
    by (auto simp: batch_returns_def split: sum.splits)
  have a: "argmax1 p = Inr (map argmax_row p)" using s(2) by (simp add: argmax1_def)
  have e: "eq_count (map argmax_row p) (b_label b) = Inr (correct fw m b)"
    using eq_count_argmax [OF s(1)] p by (simp add: correct_def logits_def)
  from p s l a e show thesis using that by blast
qed

lemma evaluate_loop_returns:
  assumes "\<forall>b \<in> set dl. batch_returns fw m b"
  shows "evaluate_loop fw m dl (a, c) =
           Inr (a + sum_list (map (correct fw m) dl), c + sum_list (map (\<lambda>b. length (b_label b)) dl))"
  using assms
proof (induction dl arbitrary: a c)
  case Nil
  then show ?case by simp
next
  case (Cons b dl)
  from Cons.prems have "batch_returns fw m b" by simp
  then obtain p loss where
    "forward fw m (LongTensor (b_text b)) (b_offsets b) = Inr p"
    "criterion fw p (b_label b) = Inr loss" "argmax1 p = Inr (map argmax_row p)"
    "eq_count (map argmax_row p) (b_label b) = Inr (correct fw m b)"
    by (rule batch_returnsD)
  moreover from Cons.prems have "\<forall>b \<in> set dl. batch_returns fw m b" by simp
  ultimately show ?case
    using Cons.IH [of "a + correct fw m b" "c + length (b_label b)"]
    by (simp add: add.assoc)
qed

lemma total_count_pos:
  assumes "\<forall>b \<in> set dl. batch_returns fw m b" "dl \<noteq> []"
  shows "0 < sum_list (map (\<lambda>b. length (b_label b)) dl)"
proof -
  from assms(2) obtain b bs where dl: "dl = b # bs" by (cases dl) auto
  with assms(1) have "b_label b \<noteq> []" by (simp add: batch_returns_def)
  then show ?thesis by (simp add: dl)
qed

lemma evaluate_returns:
  assumes "\<forall>b \<in> set dl. batch_returns fw m b" and "dl \<noteq> []"
  shows "evaluate fw dl m =
           Inr (m\<lparr>training := False\<rparr>,
                of_nat (sum_list (map (correct fw m) dl))
                  / of_nat (sum_list (map (\<lambda>b. length (b_label b)) dl)))"
proof -
  define ta where "ta = sum_list (map (correct fw m) dl)"
  define tc where "tc = sum_list (map (\<lambda>b. length (b_label b)) dl)"
  have pos: "0 < tc"
    unfolding tc_def using assms by (rule total_count_pos)
  have "\<forall>b \<in> set dl. batch_returns fw (m\<lparr>training := False\<rparr>) b"
    using assms(1) by simp
  from evaluate_loop_returns [OF this, of 0 0]
  have "evaluate_loop fw (m\<lparr>training := False\<rparr>) dl (0, 0) = Inr (ta, tc)"
    by (simp add: ta_def tc_def)
  then have "evaluate fw dl m = Inr (m\<lparr>training := False\<rparr>, of_nat ta / of_nat tc)"
    using pos by (simp add: evaluate_def)
  then show ?thesis unfolding ta_def tc_def by simp
qed

text \<open>
  C6, as the code has it. For a data loader that yields at least one batch, on whose
  batches the library calls return with one row of logits for each sample: \<open>evaluate\<close>
  returns the model with its parameters unchanged, in evaluation mode, and the accuracy,
  which is the number of samples whose first maximal logit is at the index of the label
  divided by the number of samples; the forward pass is the one of training, it does not
  depend on the mode.
\<close>

theorem evaluate_accuracy:
  assumes "\<forall>b \<in> set dl. batch_returns fw m b" and "dl \<noteq> []"
  shows "evaluate fw dl m =
           Inr (m\<lparr>training := False\<rparr>,
                of_nat (sum_list (map (correct fw m) dl))
                  / of_nat (sum_list (map (\<lambda>b. length (b_label b)) dl)))
         \<and> 0 < sum_list (map (\<lambda>b. length (b_label b)) dl)
         \<and> embedding_weight (m\<lparr>training := False\<rparr>) = embedding_weight m
         \<and> fc_weight (m\<lparr>training := False\<rparr>) = fc_weight m
         \<and> fc_bias (m\<lparr>training := False\<rparr>) = fc_bias m
         \<and> forward fw (m\<lparr>training := False\<rparr>) tx offs = forward fw (m\<lparr>training := True\<rparr>) tx offs"
  using evaluate_returns [OF assms] total_count_pos [OF assms] by simp

theorem evaluate_accuracy_witness:
  "batch_returns example_framework example_model example_batch
   \<and> [example_batch] \<noteq> []
   \<and> correct example_framework example_model example_batch = 2
   \<and> length (b_label example_batch) = 3
   \<and> evaluate example_framework [example_batch] example_model
       = Inr (example_model\<lparr>training := False\<rparr>, 2 / 3)"
proof -
  have r: "batch_returns example_framework example_model example_batch" by code_simp
  then have h: "\<forall>b \<in> set [example_batch]. batch_returns example_framework example_model b"
    by simp
  have c: "correct example_framework example_model example_batch = 2" by code_simp
  have l: "length (b_label example_batch) = 3" by code_simp
  from evaluate_accuracy [OF h, of "LongTensor []" "[]"] c l
  have "evaluate example_framework [example_batch] example_model
       = Inr (example_model\<lparr>training := False\<rparr>, 2 / 3)"
    by simp
  with r c l show ?thesis by simp
qed

text \<open>
  C6 as stated fails on the data loader that yields no batch: there is no sample, and
  the division of the two counts raises.
\<close>

theorem evaluate_empty_dataloader:
  "evaluate example_framework [] example_model = Inl ZeroDivisionError"
  by (simp add: evaluate_def)

subsection \<open>The epochs of a run\<close>

lemma passes_append [simp]: "passes (xs @ ys) = passes xs @ passes ys"
  by (simp add: passes_def)

lemma passes_simps [simp]:
  "passes [] = []"
  "passes (TrainPass e # xs) = TrainPass e # passes xs"
  "passes (EvalPass e # xs) = EvalPass e # passes xs"
  "passes (Progress e i n a # xs) = passes xs"
  "passes (EndOfEpoch e a # xs) = passes xs"
  by (simp_all add: passes_def)

lemma summary_append [simp]: "summary (xs @ ys) = summary xs @ summary ys"
  by (simp add: summary_def)

lemma summary_simps [simp]:
  "summary [] = []"
  "summary (TrainPass e # xs) = TrainPass e # summary xs"
  "summary (EvalPass e # xs) = EvalPass e # summary xs"
  "summary (Progress e i n a # xs) = summary xs"
  "summary (EndOfEpoch e a # xs) = EndOfEpoch e a # summary xs"
  by (simp_all add: summary_def)









subsection \<open>Prediction\<close>

lemma linear_one_row:
  assumes "list_all (\<lambda>w. length w = length v) W" and "length W = n" and "length b = n"
  shows "linear W b [v] = Inr [map2 (\<lambda>w c. dot w v + c) W b]"
    and "length (map2 (\<lambda>w c. dot w v + c) W b) = n"
  using assms by (simp_all add: linear_def)

lemma ag_news_label_keys:
  assumes "k < 4"
  shows "\<exists>name. ag_news_label (int k + 1) = Some name"
proof -
  from assms have "k = 0 \<or> k = 1 \<or> k = 2 \<or> k = 3" by auto
  then show ?thesis by (auto simp: ag_news_label_def)
qed

text \<open>
  C10. A text whose encoded token sequence \<open>ids\<close> is not empty and holds integers of 64
  bits, a model whose linear layer has \<open>num_class > 0\<close> rows and as many biases, and an
  embedding bag that returns, for the one bag, one vector \<open>v\<close> of the length of these
  rows: the forward pass gives one row of \<open>num_class\<close> logits, the linear layer applied
  to \<open>v\<close>, and \<open>predict\<close> returns \<open>k + 1\<close>, where \<open>k\<close> is the index of the first maximal
  logit: no logit is above the one at \<open>k\<close>, and those before \<open>k\<close> are below it. The
  result lies between \<open>1\<close> and \<open>num_class\<close>; with four classes it is a key of
  \<open>ag_news_label\<close> and the last line of the script prints the name found there.
\<close>

theorem predict_in_range:
  assumes "pipeline x = Inr ids" and "ids \<noteq> []"
    and "list_all (\<lambda>i. in_int64 (int i)) ids"
    and "embedding_bag fw (embedding_weight m) (LongTensor ids) [0] = Inr [v]"
    and "list_all (\<lambda>w. length w = length v) (fc_weight m)"
    and "length (fc_weight m) = num_class" and "length (fc_bias m) = num_class"
    and "0 < num_class"
  shows "\<exists>row k. forward fw m (LongTensor ids) [0] = Inr [row]
           \<and> row = map2 (\<lambda>w c. dot w v + c) (fc_weight m) (fc_bias m)
           \<and> length row = num_class
           \<and> k < num_class
           \<and> (\<forall>j < num_class. row ! j \<le> row ! k)
           \<and> (\<forall>j < k. row ! j < row ! k)
           \<and> predict fw m x pipeline = Inr (int k + 1)
           \<and> 1 \<le> int k + 1 \<and> int k + 1 \<le> int num_class
           \<and> (num_class = 4 \<longrightarrow>
                (\<exists>name. ag_news_label (int k + 1) = Some name
                   \<and> final_print fw m x pipeline = Inr (''This is a '' @ name @ '' news'')))"
proof -
  define row where "row = map2 (\<lambda>w c. dot w v + c) (fc_weight m) (fc_bias m)"
  define k where "k = argmax_row row"
  have lin: "linear (fc_weight m) (fc_bias m) [v] = Inr [row]" and len: "length row = num_class"
    unfolding row_def using linear_one_row [OF assms(5,6,7)] by simp_all
  have f: "forward fw m (LongTensor ids) [0] = Inr [row]"
    by (simp add: forward_def assms(4) lin)
  from len assms(8) have ne: "row \<noteq> []" by auto
  from argmax_row_spec [OF ne] have am: "k < num_class" "\<forall>j < num_class. row ! j \<le> row ! k"
    "\<forall>j < k. row ! j < row ! k"
    unfolding k_def len by blast+
  have t: "torch_tensor ids = Inr (LongTensor ids)"
    using assms(2,3) by (simp add: torch_tensor_def)
  have p: "predict fw m x pipeline = Inr (int k + 1)"
    using assms(1) t f ne by (simp add: predict_def argmax1_def item_def k_def)
  have lab: "\<exists>name. ag_news_label (int k + 1) = Some name
                   \<and> final_print fw m x pipeline = Inr (''This is a '' @ name @ '' news'')"
    if "num_class = 4"
  proof -
    from am(1) that obtain name where "ag_news_label (int k + 1) = Some name"
      using ag_news_label_keys by blast
    then show ?thesis using p by (auto simp: final_print_def)
  qed
  have r: "1 \<le> int k + 1" "int k + 1 \<le> int num_class" using am(1) by simp_all
  from f len am p r lab show ?thesis
    unfolding row_def [symmetric] by (intro exI [of _ row] exI [of _ k]) blast
qed

theorem predict_in_range_witness:
  "text_pipeline spec_tokenizer example_vocab ''cat'' = Inr [2]
   \<and> [2 :: nat] \<noteq> []
   \<and> list_all (\<lambda>i. in_int64 (int i)) [2]
   \<and> embedding_bag example_framework (embedding_weight example_model) (LongTensor [2]) [0]
       = Inr [[0, 1]]
   \<and> list_all (\<lambda>w. length w = length [0, 1 :: rat]) (fc_weight example_model)
   \<and> length (fc_weight example_model) = 4 \<and> length (fc_bias example_model) = 4
   \<and> forward example_framework example_model (LongTensor [2]) [0] = Inr [[0, 1, 0, - 1]]
   \<and> predict example_framework example_model ''cat'' (text_pipeline spec_tokenizer example_vocab)
       = Inr 2
   \<and> ag_news_label 2 = Some ''Sports''
   \<and> final_print example_framework example_model ''cat''
       (text_pipeline spec_tokenizer example_vocab) = Inr ''This is a Sports news''"
proof -
  have h1: "text_pipeline spec_tokenizer example_vocab ''cat'' = Inr [2]" by code_simp
  have h2: "[2 :: nat] \<noteq> []" by simp
  have h3: "list_all (\<lambda>i. in_int64 (int i)) [2]" by (simp add: in_int64_def)
  have h4: "embedding_bag example_framework (embedding_weight example_model) (LongTensor [2]) [0]
       = Inr [[0, 1]]" by code_simp
  have h5: "list_all (\<lambda>w. length w = length [0, 1 :: rat]) (fc_weight example_model)"
    by (simp add: example_model_def)
  have h6: "length (fc_weight example_model) = 4" "length (fc_bias example_model) = 4"
    by (simp_all add: example_model_def)
  have h8: "0 < (4 :: nat)" by simp
  from predict_in_range [where pipeline = "text_pipeline spec_tokenizer example_vocab"
      and x = "''cat''", OF h1 h2 h3 h4 h5 h6 h8]
  obtain row k name where r:
    "forward example_framework example_model (LongTensor [2]) [0] = Inr [row]"
    "row = map2 (\<lambda>w c. dot w [0, 1] + c) (fc_weight example_model) (fc_bias example_model)"
    "k < 4" "\<forall>j < 4. row ! j \<le> row ! k"
    "predict example_framework example_model ''cat'' (text_pipeline spec_tokenizer example_vocab)
       = Inr (int k + 1)"
    "ag_news_label (int k + 1) = Some name"
    "final_print example_framework example_model ''cat''
       (text_pipeline spec_tokenizer example_vocab) = Inr (''This is a '' @ name @ '' news'')"
    by blast
  from r(2) have row: "row = [0, 1, 0, - 1]"
    by (simp add: example_model_def dot_def)
  from r(3) have "k = 0 \<or> k = 1 \<or> k = 2 \<or> k = 3" by auto
  moreover from r(4) have "row ! 1 \<le> row ! k" by simp
  ultimately have k: "k = 1" by (auto simp: row)
  have lab: "ag_news_label 2 = Some ''Sports''" by (simp add: ag_news_label_def)
  from r(6) have name: "name = ''Sports''" by (simp add: k lab)
  from r(1) have fwd: "forward example_framework example_model (LongTensor [2]) [0]
      = Inr [[0, 1, 0, - 1]]"
    by (simp add: row)
  from r(5) have p: "predict example_framework example_model ''cat''
      (text_pipeline spec_tokenizer example_vocab) = Inr 2"
    by (simp add: k)
  from r(7) have fp: "final_print example_framework example_model ''cat''
       (text_pipeline spec_tokenizer example_vocab) = Inr ''This is a Sports news''"
    by (simp add: name)
  have ev: "predict example_framework example_model ''cat''
      (text_pipeline spec_tokenizer example_vocab) = Inr 2"
    by code_simp
  from h1 h2 h3 h4 h5 h6 fwd p ev lab fp show ?thesis by simp
qed

subsection \<open>Initialisation\<close>

lemma uniform_value_range:
  fixes lo hi u :: rat
  assumes "0 \<le> u" "u \<le> 1" "lo \<le> hi"
  shows "lo \<le> lo + (hi - lo) * u \<and> lo + (hi - lo) * u \<le> hi"
proof -
  from assms have d: "0 \<le> hi - lo" by simp
  from d assms(1) have "0 \<le> (hi - lo) * u" by (rule mult_nonneg_nonneg)
  moreover from assms(2) d have "(hi - lo) * u \<le> (hi - lo) * 1" by (rule mult_left_mono)
  ultimately show ?thesis by simp
qed

lemma fst_uniform_fill_Cons:
  "fst (uniform_fill lo hi g k (r # rs)) =
     map (\<lambda>j. lo + (hi - lo) * g (k + j)) [0..<length r] # fst (uniform_fill lo hi g (k + length r) rs)"
  by (simp split: prod.splits)

lemma uniform_fill_range:
  assumes "\<forall>k. 0 \<le> g k \<and> g k \<le> 1" and "lo \<le> hi"
  shows "\<forall>row \<in> set (fst (uniform_fill lo hi g k t)). \<forall>x \<in> set row. lo \<le> x \<and> x \<le> hi"
proof (induction t arbitrary: k)
  case Nil
  then show ?case by simp
next
  case (Cons r t)
  have "\<forall>x \<in> set (map (\<lambda>j. lo + (hi - lo) * g (k + j)) [0..<length r]). lo \<le> x \<and> x \<le> hi"
    using assms uniform_value_range by auto
  then show ?case using Cons.IH [of "k + length r"]
    by (simp del: uniform_fill.simps add: fst_uniform_fill_Cons)
qed

lemma uniform_fill_shape: "map length (fst (uniform_fill lo hi g k t)) = map length t"
  by (induction t arbitrary: k)
    (simp_all del: uniform_fill.simps add: uniform_fill.simps(1) fst_uniform_fill_Cons)

lemma init_weights_fields:
  "embedding_weight (fst (init_weights g k m))
     = fst (uniform_fill (- (1 / 2)) (1 / 2) g k (embedding_weight m))"
  "fc_weight (fst (init_weights g k m))
     = fst (uniform_fill (- (1 / 2)) (1 / 2) g
              (snd (uniform_fill (- (1 / 2)) (1 / 2) g k (embedding_weight m))) (fc_weight m))"
  "fc_bias (fst (init_weights g k m)) = map (\<lambda>_. 0) (fc_bias m)"
  "training (fst (init_weights g k m)) = training m"
  by (simp_all add: init_weights_def Let_def zero_fill_def split: prod.splits)

text \<open>
  C8. With a random generator whose samples lie in the unit interval, \<open>init_weights\<close>
  leaves every entry of the embedding weight and of the linear weight between \<open>-0.5\<close>
  and \<open>0.5\<close> and every entry of the bias equal to zero, whatever the tensors held
  before, and keeps their shapes; so it is for the new model that
  \<open>TextClassificationModel\<close> returns, of the shapes asked for.
\<close>

theorem init_weights_range:
  assumes "\<forall>k. 0 \<le> g k \<and> g k \<le> 1"
  shows "(\<forall>row \<in> set (embedding_weight (fst (init_weights g k m))).
            \<forall>x \<in> set row. - (1 / 2) \<le> x \<and> x \<le> 1 / 2)
       \<and> (\<forall>row \<in> set (fc_weight (fst (init_weights g k m))).
            \<forall>x \<in> set row. - (1 / 2) \<le> x \<and> x \<le> 1 / 2)
       \<and> (\<forall>x \<in> set (fc_bias (fst (init_weights g k m))). x = 0)
       \<and> map length (embedding_weight (fst (init_weights g k m))) = map length (embedding_weight m)
       \<and> map length (fc_weight (fst (init_weights g k m))) = map length (fc_weight m)
       \<and> length (fc_bias (fst (init_weights g k m))) = length (fc_bias m)
       \<and> (let new = fst (TextClassificationModel g k d vocab_size embed_dim num_class) in
            (\<forall>row \<in> set (embedding_weight new). \<forall>x \<in> set row. - (1 / 2) \<le> x \<and> x \<le> 1 / 2)
          \<and> (\<forall>row \<in> set (fc_weight new). \<forall>x \<in> set row. - (1 / 2) \<le> x \<and> x \<le> 1 / 2)
          \<and> (\<forall>x \<in> set (fc_bias new). x = 0)
          \<and> map length (embedding_weight new) = replicate vocab_size embed_dim
          \<and> map length (fc_weight new) = replicate num_class embed_dim
          \<and> length (fc_bias new) = num_class)"
proof -
  have le: "- (1 / 2 :: rat) \<le> 1 / 2" by simp
  have init: "(\<forall>row \<in> set (embedding_weight (fst (init_weights g k m))).
            \<forall>x \<in> set row. - (1 / 2) \<le> x \<and> x \<le> 1 / 2)
       \<and> (\<forall>row \<in> set (fc_weight (fst (init_weights g k m))).
            \<forall>x \<in> set row. - (1 / 2) \<le> x \<and> x \<le> 1 / 2)
       \<and> (\<forall>x \<in> set (fc_bias (fst (init_weights g k m))). x = 0)
       \<and> map length (embedding_weight (fst (init_weights g k m))) = map length (embedding_weight m)
       \<and> map length (fc_weight (fst (init_weights g k m))) = map length (fc_weight m)
       \<and> length (fc_bias (fst (init_weights g k m))) = length (fc_bias m)" for m
    using uniform_fill_range [OF assms le] uniform_fill_shape
    by (simp add: init_weights_fields)
  have l: "map (\<lambda>i. n) [0..<j] = replicate j (n :: nat)" for n j
    by (induction j) (auto simp: replicate_append_same)
  let ?m0 = "\<lparr>embedding_weight = map (\<lambda>i. map (d i) [0..<embed_dim]) [0..<vocab_size],
        fc_weight = map (\<lambda>i. map (d (vocab_size + i)) [0..<embed_dim]) [0..<num_class],
        fc_bias = map (\<lambda>i. d (vocab_size + num_class) i) [0..<num_class],
        training = True\<rparr>"
  have new: "TextClassificationModel g k d vocab_size embed_dim num_class = init_weights g k ?m0"
    by (simp add: TextClassificationModel_def)
  from init [of ?m0] have "let new = fst (TextClassificationModel g k d vocab_size embed_dim num_class) in
            (\<forall>row \<in> set (embedding_weight new). \<forall>x \<in> set row. - (1 / 2) \<le> x \<and> x \<le> 1 / 2)
          \<and> (\<forall>row \<in> set (fc_weight new). \<forall>x \<in> set row. - (1 / 2) \<le> x \<and> x \<le> 1 / 2)
          \<and> (\<forall>x \<in> set (fc_bias new). x = 0)
          \<and> map length (embedding_weight new) = replicate vocab_size embed_dim
          \<and> map length (fc_weight new) = replicate num_class embed_dim
          \<and> length (fc_bias new) = num_class"
    unfolding new Let_def by (simp add: comp_def l)
  with init [of m] show ?thesis by blast
qed


theorem init_weights_range_witness:
  "(\<forall>k. 0 \<le> 1 / rat_of_nat (k + 2) \<and> 1 / rat_of_nat (k + 2) \<le> 1)
   \<and> fst (TextClassificationModel (\<lambda>k. 1 / rat_of_nat (k + 2)) 0 (\<lambda>i j. 7) 2 2 2)
       = \<lparr>embedding_weight = [[0, - (1 / 6)], [- (1 / 4), - (3 / 10)]],
          fc_weight = [[- (1 / 3), - (5 / 14)], [- (3 / 8), - (7 / 18)]],
          fc_bias = [0, 0], training = True\<rparr>
   \<and> list_all (list_all (\<lambda>x. - (1 / 2) \<le> x \<and> x \<le> 1 / 2))
       (embedding_weight (fst (TextClassificationModel (\<lambda>k. 1 / rat_of_nat (k + 2)) 0 (\<lambda>i j. 7) 2 2 2)))
   \<and> list_all (list_all (\<lambda>x. - (1 / 2) \<le> x \<and> x \<le> 1 / 2))
       (fc_weight (fst (TextClassificationModel (\<lambda>k. 1 / rat_of_nat (k + 2)) 0 (\<lambda>i j. 7) 2 2 2)))
   \<and> list_all (\<lambda>x. x = 0)
       (fc_bias (fst (TextClassificationModel (\<lambda>k. 1 / rat_of_nat (k + 2)) 0 (\<lambda>i j. 7) 2 2 2)))"
proof -
  let ?g = "\<lambda>k. 1 / rat_of_nat (k + 2)"
  let ?new = "fst (TextClassificationModel ?g 0 (\<lambda>i j. 7) 2 2 2)"
  have h: "\<forall>k. 0 \<le> ?g k \<and> ?g k \<le> 1" by simp
  have v: "?new = \<lparr>embedding_weight = [[0, - (1 / 6)], [- (1 / 4), - (3 / 10)]],
          fc_weight = [[- (1 / 3), - (5 / 14)], [- (3 / 8), - (7 / 18)]],
          fc_bias = [0, 0], training = True\<rparr>"
    by code_simp
  from init_weights_range [OF h, of 0 example_model "\<lambda>i j. 7" 2 2 2]
  have "(\<forall>row \<in> set (embedding_weight ?new). \<forall>x \<in> set row. - (1 / 2) \<le> x \<and> x \<le> 1 / 2)
      \<and> (\<forall>row \<in> set (fc_weight ?new). \<forall>x \<in> set row. - (1 / 2) \<le> x \<and> x \<le> 1 / 2)
      \<and> (\<forall>x \<in> set (fc_bias ?new). x = 0)"
    unfolding Let_def by blast
  then have "list_all (list_all (\<lambda>x. - (1 / 2) \<le> x \<and> x \<le> 1 / 2)) (embedding_weight ?new)
      \<and> list_all (list_all (\<lambda>x. - (1 / 2) \<le> x \<and> x \<le> 1 / 2)) (fc_weight ?new)
      \<and> list_all (\<lambda>x. x = 0) (fc_bias ?new)"
    unfolding list_all_iff by blast
  with h v show ?thesis by blast
qed

end
